theory Spec2Isabelle
  imports Complex_Main "HOL-Library.AList" "HOL-Library.Sublist"
begin

section \<open>Text\<close>

text \<open>
  Python \<open>str\<close> values are modelled as \<^typ>\<open>string\<close>: a character is the Unicode code
  point of its number, so the texts are those of code points up to U+00FF. On them the
  functions below are Python's \<open>str.isalpha\<close>, \<open>str.isspace\<close>, \<open>str.lower\<close>,
  \<open>str.strip\<close> and \<open>str.upper\<close>. Two capitals lie beyond U+00FF, those of U+00B5 and
  U+00FF: \<open>upper_points\<close> gives the code points of \<open>c.upper()\<close> for every character,
  and \<open>upper\<close>, whose result is a text, leaves these two characters alone.
\<close>

definition code :: "char \<Rightarrow> nat" where
  "code c = of_char c"

definition is_AZ :: "char \<Rightarrow> bool" where
  "is_AZ c = (65 \<le> code c \<and> code c \<le> 90)"

definition is_az :: "char \<Rightarrow> bool" where
  "is_az c = (97 \<le> code c \<and> code c \<le> 122)"

definition ascii_letter :: "char \<Rightarrow> bool" where
  "ascii_letter c = (is_AZ c \<or> is_az c)"

definition isalpha :: "char \<Rightarrow> bool" where
  "isalpha c =
     (ascii_letter c \<or> code c = 170 \<or> code c = 181 \<or> code c = 186
      \<or> (192 \<le> code c \<and> code c \<le> 214) \<or> (216 \<le> code c \<and> code c \<le> 246)
      \<or> (248 \<le> code c \<and> code c \<le> 255))"

definition isspace :: "char \<Rightarrow> bool" where
  "isspace c = (code c \<in> {9, 10, 11, 12, 13, 28, 29, 30, 31, 32, 133, 160})"

text \<open>
  The code points of \<open>c.upper()\<close>: U+00DF gives \<open>SS\<close>, U+00B5 gives U+039C and U+00FF
  gives U+0178.
\<close>

definition upper_points :: "char \<Rightarrow> nat list" where
  "upper_points c =
     (if is_az c \<or> (224 \<le> code c \<and> code c \<le> 246) \<or> (248 \<le> code c \<and> code c \<le> 254)
      then [code c - 32]
      else if code c = 223 then [83, 83]
      else if code c = 181 then [924]
      else if code c = 255 then [376]
      else [code c])"

definition upper_char :: "char \<Rightarrow> string" where
  "upper_char c = (if code c = 181 \<or> code c = 255 then [c] else map char_of (upper_points c))"

definition lower_char :: "char \<Rightarrow> char" where
  "lower_char c =
     (if is_AZ c \<or> (192 \<le> code c \<and> code c \<le> 214) \<or> (216 \<le> code c \<and> code c \<le> 222)
      then char_of (code c + 32) else c)"

definition upper :: "string \<Rightarrow> string" where
  "upper s = concat (map upper_char s)"

definition lower :: "string \<Rightarrow> string" where
  "lower s = map lower_char s"

definition strip :: "string \<Rightarrow> string" where
  "strip s = rev (dropWhile isspace (rev (dropWhile isspace s)))"

text \<open>\<open>sep.split\<close> for a one-character separator: every separator ends a field.\<close>

fun split_on :: "char \<Rightarrow> string \<Rightarrow> string list" where
  "split_on sep [] = [[]]"
| "split_on sep (c # cs) =
     (if c = sep then [] # split_on sep cs
      else (case split_on sep cs of
              [] \<Rightarrow> [[c]]
            | f # fs \<Rightarrow> (c # f) # fs))"

section \<open>Regular expressions built by \<open>pattern_to_regex\<close>\<close>

text \<open>
  \<open>pattern_to_regex\<close> only ever builds two shapes of regular expression:
  \<open>^[A-Z]{2,15}$\<close> and \<open>^\<close>\<open>a\<^sub>1 \<dots> a\<^sub>n\<close>\<open>$\<close> where each \<open>a\<^sub>i\<close> is the class \<open>[A-Z]\<close> or
  one literal character. They are kept as syntax trees; a literal is kept as its code
  point.
\<close>

datatype atom = Upper_class | Lit nat

datatype regex = Default_range | Exact "atom list"

fun atom_ok :: "atom \<Rightarrow> char \<Rightarrow> bool" where
  "atom_ok Upper_class c = is_AZ c"
| "atom_ok (Lit l) c = (code c = l)"

fun fullmatch :: "regex \<Rightarrow> string \<Rightarrow> bool" where
  "fullmatch Default_range w = (2 \<le> length w \<and> length w \<le> 15 \<and> list_all is_AZ w)"
| "fullmatch (Exact as) w = list_all2 atom_ok as w"

text \<open>
  \<open>re.match(regex, word)\<close> for these expressions. Without \<open>re.MULTILINE\<close> the final \<open>$\<close>
  matches at the end of the string and also just before a newline that ends the string.
\<close>

definition re_match :: "regex \<Rightarrow> string \<Rightarrow> bool" where
  "re_match r w =
     (fullmatch r w \<or> (w \<noteq> [] \<and> last w = CHR 0x0A \<and> fullmatch r (butlast w)))"

section \<open>The collaborators of the solver\<close>

text \<open>
  A WordNet synset, as far as the solver reads it: \<open>name()\<close>, \<open>definition()\<close> and the
  names of its \<open>hypernyms()\<close>.
\<close>

record synset =
  syn_name :: string
  syn_definition :: string
  syn_hypernyms :: "string list"

text \<open>
  The libraries the solver calls. \<open>tokenizer\<close> is NLTK's \<open>word_tokenize\<close>; it is \<open>None\<close>
  when the tokenizer's data is not installed, and then every call raises \<open>LookupError\<close>.
  Scores are Python floats: \<open>'f\<close> is the type of floats, \<open>fl\<close> gives the float of a number
  written in the source, \<open>fl_add\<close> and \<open>fl_mul\<close> are float addition and multiplication.
\<close>

record 'f env =
  tokenizer :: "(string \<Rightarrow> string list) option"
  lemmatize :: "string \<Rightarrow> string"
  synsets :: "string \<Rightarrow> synset list"
  fl :: "rat \<Rightarrow> 'f"
  fl_add :: "'f \<Rightarrow> 'f \<Rightarrow> 'f"
  fl_mul :: "'f \<Rightarrow> 'f \<Rightarrow> 'f"

datatype error = LookupError | KeyError | TypeError | IndexError

definition word_tokenize :: "'f env \<Rightarrow> string \<Rightarrow> error + string list" where
  "word_tokenize e s = (case tokenizer e of None \<Rightarrow> Inl LookupError | Some t \<Rightarrow> Inr (t s))"

section \<open>The solver\<close>

type_synonym 'f ranked = "(string \<times> 'f \<times> string) list"

text \<open>
  The fields of \<open>CrosswordSolver\<close>. \<open>feedback_db\<close> is a Python dict from strings to
  strings: an association list in insertion order with one pair for each key.
  \<open>similarity_model\<close>, when loaded, is seen through the cosine similarity it gives to a
  clue and a text.
\<close>

record 'f solver =
  word_list :: "string list"
  feedback_db :: "(string \<times> string) list"
  excluded_words :: "string list"
  current_results :: "((string \<times> string) \<times> 'f ranked) option"
  similarity_model :: "(string \<Rightarrow> string \<Rightarrow> 'f) option"

text \<open>
  \<open>load_word_database\<close>: the lines of the word file (\<open>None\<close> when the file is missing),
  stripped and uppercased, blank lines dropped.
\<close>

definition load_word_database :: "string list option \<Rightarrow> string list" where
  "load_word_database f =
     (case f of
        None \<Rightarrow> []
      | Some lines \<Rightarrow> map (\<lambda>line. upper (strip line)) (filter (\<lambda>line. strip line \<noteq> []) lines))"

definition pattern_to_regex :: "string \<Rightarrow> regex" where
  "pattern_to_regex pattern =
     (if pattern = [] \<or> strip pattern = [] then Default_range
      else Exact (concat (map (\<lambda>c. if \<not> isalpha c then [Upper_class] else map Lit (upper_points c))
                           pattern)))"

text \<open>\<open>max(2, min(15, int(n * 1.5)))\<close>: \<open>int\<close> truncates, and \<open>n * 1.5\<close> is not negative.\<close>

definition est_len :: "nat \<Rightarrow> nat" where
  "est_len n = max 2 (min 15 ((3 * n) div 2))"

definition near :: "nat \<Rightarrow> string \<Rightarrow> bool" where
  "near est w = (\<bar>int (length w) - int est\<bar> \<le> 3)"

text \<open>The body of the \<open>try\<close> block of \<open>find_matches\<close>.\<close>

definition find_matches_body :: "'f env \<Rightarrow> string list \<Rightarrow> string \<Rightarrow> string \<Rightarrow> error + string list" where
  "find_matches_body e wl pattern clue =
     (let regex = pattern_to_regex pattern;
          matches = filter (re_match regex) wl
      in if pattern = [] \<or> list_all (\<lambda>c. c = CHR ''?'') pattern
         then (case word_tokenize e (lower clue) of
                 Inl err \<Rightarrow> Inl err
               | Inr clue_tokens \<Rightarrow> Inr (filter (near (est_len (length clue_tokens))) matches))
         else Inr matches)"

definition find_matches :: "'f env \<Rightarrow> string list \<Rightarrow> string \<Rightarrow> string \<Rightarrow> string list" where
  "find_matches e wl pattern clue =
     (case find_matches_body e wl pattern clue of
        Inr matches \<Rightarrow> matches
      | Inl err \<Rightarrow> take 100 wl)"

section \<open>Ranking\<close>

text \<open>\<open>len(a & b)\<close> for the sets \<open>a\<close>, \<open>b\<close> of the strings of two lists.\<close>

definition overlap :: "string list \<Rightarrow> string list \<Rightarrow> nat" where
  "overlap xs ys = card (set xs \<inter> set ys)"

text \<open>\<open>lemmatize(w.lower())\<close> for every \<open>w\<close> of a list.\<close>

definition lemmatized :: "'f env \<Rightarrow> string list \<Rightarrow> string list" where
  "lemmatized e ws = map (\<lambda>w. lemmatize e (lower w)) ws"

text \<open>\<open>n * q\<close> for an \<open>int\<close> \<open>n\<close> and a float literal \<open>q\<close>.\<close>

definition scaled :: "'f env \<Rightarrow> nat \<Rightarrow> rat \<Rightarrow> 'f" where
  "scaled e n q = fl_mul e (fl e (of_nat n)) (fl e q)"

text \<open>
  \<open>sorted(xs, key=..., reverse=True)\<close>: CPython reverses the list, sorts it stably in
  ascending order and reverses the result.
\<close>

definition sorted_desc :: "('a \<Rightarrow> 'k::linorder) \<Rightarrow> 'a list \<Rightarrow> 'a list" where
  "sorted_desc key xs = rev (sort_key key (rev xs))"

definition score_of :: "string \<times> 'f \<times> string \<Rightarrow> 'f" where
  "score_of x = fst (snd x)"

text \<open>A loop whose body may raise: the first exception ends it.\<close>

fun collect :: "('a \<Rightarrow> error + 'b) \<Rightarrow> 'a list \<Rightarrow> error + 'b list" where
  "collect f [] = Inr []"
| "collect f (x # xs) =
     (case f x of
        Inl err \<Rightarrow> Inl err
      | Inr y \<Rightarrow> (case collect f xs of Inl err \<Rightarrow> Inl err | Inr ys \<Rightarrow> Inr (y # ys)))"

text \<open>The two inner loops of \<open>_wordnet_ranking\<close>, over the synsets and their hypernyms.\<close>

definition add_hypernyms :: "'f env \<Rightarrow> string list \<Rightarrow> 'f \<Rightarrow> string list \<Rightarrow> 'f" where
  "add_hypernyms e clue_words score hypers =
     foldl (\<lambda>sc hyper.
              fl_add e sc (scaled e (overlap clue_words (lemmatized e (split_on CHR ''.'' hyper))) (3 / 10)))
       score hypers"

definition add_synsets :: "'f env \<Rightarrow> string list \<Rightarrow> 'f \<Rightarrow> synset list \<Rightarrow> 'f" where
  "add_synsets e clue_words score syns =
     foldl (\<lambda>sc syn.
              add_hypernyms e clue_words
                (fl_add e sc
                   (scaled e (overlap clue_words (lemmatized e (split_on CHR ''.'' (syn_name syn)))) (7 / 10)))
                (syn_hypernyms syn))
       score syns"

text \<open>
  One round of the loop of \<open>_wordnet_ranking\<close> in the first definition of the class
  (\<open>score = 0\<close>, then \<open>score += ...\<close>).
\<close>

definition wordnet_entry :: "'f env \<Rightarrow> string list \<Rightarrow> string \<Rightarrow> error + string \<times> 'f \<times> string" where
  "wordnet_entry e clue_words word =
     (case synsets e (lower word) of
        [] \<Rightarrow> Inr (word, fl e 0, ''No definition'')
      | syn0 # rest \<Rightarrow>
          (let best_def = syn_definition syn0 in
           case word_tokenize e best_def of
             Inl err \<Rightarrow> Inl err
           | Inr def_tokens \<Rightarrow>
               (let score = fl_add e (fl e 0) (scaled e (overlap clue_words (lemmatized e def_tokens)) (1 / 2))
                in Inr (word, add_synsets e clue_words score (syn0 # rest), best_def))))"

definition wordnet_ranking :: "'f::linorder env \<Rightarrow> string \<Rightarrow> string list \<Rightarrow> error + 'f ranked" where
  "wordnet_ranking e clue matches =
     (case word_tokenize e (lower clue) of
        Inl err \<Rightarrow> Inl err
      | Inr clue_tokens \<Rightarrow>
          (case collect (wordnet_entry e (lemmatized e clue_tokens)) matches of
             Inl err \<Rightarrow> Inl err
           | Inr ranked \<Rightarrow> Inr (take 3 (sorted_desc score_of ranked))))"

text \<open>
  The same in the second definition of the class, where the score starts as
  \<open>len(clue_words & def_words) * 0.5\<close>.
\<close>

definition wordnet_entry2 :: "'f env \<Rightarrow> string list \<Rightarrow> string \<Rightarrow> error + string \<times> 'f \<times> string" where
  "wordnet_entry2 e clue_words w =
     (case synsets e (lower w) of
        [] \<Rightarrow> Inr (w, fl e 0, ''No definition'')
      | syn0 # rest \<Rightarrow>
          (let base_def = syn_definition syn0 in
           case word_tokenize e base_def of
             Inl err \<Rightarrow> Inl err
           | Inr def_tokens \<Rightarrow>
               (let score = scaled e (overlap clue_words (lemmatized e def_tokens)) (1 / 2)
                in Inr (w, add_synsets e clue_words score (syn0 # rest), base_def))))"

definition wordnet_ranking2 :: "'f::linorder env \<Rightarrow> string \<Rightarrow> string list \<Rightarrow> error + 'f ranked" where
  "wordnet_ranking2 e clue matches =
     (case word_tokenize e (lower clue) of
        Inl err \<Rightarrow> Inl err
      | Inr clue_tokens \<Rightarrow>
          (case collect (wordnet_entry2 e (lemmatized e clue_tokens)) matches of
             Inl err \<Rightarrow> Inl err
           | Inr ranked \<Rightarrow> Inr (take 3 (sorted_desc score_of ranked))))"

text \<open>
  \<open>_ai_ranking\<close>. \<open>best_sim\<close> is \<open>similarities.max()\<close> together with
  \<open>definitions[similarities.argmax()]\<close>, the first of the largest similarities.
\<close>

fun best_sim :: "'f::linorder \<times> string \<Rightarrow> ('f \<times> string) list \<Rightarrow> 'f \<times> string" where
  "best_sim b [] = b"
| "best_sim b (x # xs) = (if fst b < fst x then best_sim x xs else best_sim b xs)"

definition ai_entry ::
  "'f::linorder env \<Rightarrow> (string \<Rightarrow> string \<Rightarrow> 'f) \<Rightarrow> string \<Rightarrow> string \<Rightarrow> error + string \<times> 'f \<times> string" where
  "ai_entry e sim clue word =
     (let syns = synsets e (lower word);
          definitions = (if syns \<noteq> [] then map syn_definition syns else [word]);
          similarities = map (\<lambda>d. (sim clue d, d)) definitions;
          (max_sim, best_def) = best_sim (hd similarities) (tl similarities)
      in case word_tokenize e clue of
           Inl err \<Rightarrow> Inl err
         | Inr clue_tokens \<Rightarrow>
             (let clue_len = length clue_tokens;
                  length_boost = min (fl e (1 / 10))
                    (fl_mul e (fl e (3 / 100)) (fl e (of_int \<bar>int (length word) - int clue_len\<bar>)))
              in Inr (word, fl_add e max_sim length_boost, best_def)))"

definition ai_ranking ::
  "'f::linorder env \<Rightarrow> 'f solver \<Rightarrow> (string \<Rightarrow> string \<Rightarrow> 'f) \<Rightarrow> string \<Rightarrow> string list \<Rightarrow> error + 'f ranked" where
  "ai_ranking e s sim clue matches =
     (case collect (ai_entry e sim clue) (filter (\<lambda>word. word \<notin> set (excluded_words s)) matches) of
        Inl err \<Rightarrow> Inl err
      | Inr ranked \<Rightarrow> Inr (take 3 (sorted_desc score_of ranked)))"

section \<open>Feedback keys\<close>

text \<open>
  \<open>str((clue, pattern.upper()))\<close> is \<open>(\<close>, the \<open>repr\<close> of the clue, a comma and a space,
  the \<open>repr\<close> of the pattern, \<open>)\<close>. The \<open>repr\<close> of a string is quoted with \<open>'\<close>, or with
  \<open>"\<close> when the string holds a \<open>'\<close> and no \<open>"\<close>; the characters that do not print
  (U+0000 to U+001F, U+007F to U+00A0 and U+00AD) are escaped.
\<close>

definition hex_digit :: "nat \<Rightarrow> char" where
  "hex_digit n = (if n < 10 then char_of (48 + n) else char_of (87 + n))"

definition repr_char :: "char \<Rightarrow> char \<Rightarrow> string" where
  "repr_char quote c =
     (if c = quote \<or> c = CHR 0x5C then [CHR 0x5C, c]
      else if c = CHR 0x09 then [CHR 0x5C, CHR ''t'']
      else if c = CHR 0x0A then [CHR 0x5C, CHR ''n'']
      else if c = CHR 0x0D then [CHR 0x5C, CHR ''r'']
      else if code c < 32 \<or> (127 \<le> code c \<and> code c \<le> 160) \<or> code c = 173
        then [CHR 0x5C, CHR ''x'', hex_digit (code c div 16), hex_digit (code c mod 16)]
      else [c])"

definition py_repr :: "string \<Rightarrow> string" where
  "py_repr s =
     (let quote = (if CHR 0x27 \<in> set s \<and> CHR 0x22 \<notin> set s then CHR 0x22 else CHR 0x27)
      in [quote] @ concat (map (repr_char quote) s) @ [quote])"

definition feedback_key :: "string \<Rightarrow> string \<Rightarrow> string" where
  "feedback_key clue pattern = ''('' @ py_repr clue @ '', '' @ py_repr (upper pattern) @ '')''"

section \<open>\<open>rank_by_clue\<close> and \<open>solve\<close>\<close>

definition first_definition :: "'f env \<Rightarrow> string \<Rightarrow> string \<Rightarrow> string" where
  "first_definition e word marker =
     (case synsets e (lower word) of [] \<Rightarrow> marker | syn0 # rest \<Rightarrow> syn_definition syn0)"

text \<open>\<open>rank_by_clue\<close> of the first definition of the class.\<close>

definition rank_by_clue ::
  "'f::linorder env \<Rightarrow> 'f solver \<Rightarrow> string \<Rightarrow> string list \<Rightarrow> string \<Rightarrow> error + 'f ranked" where
  "rank_by_clue e s clue matches pattern =
     (if clue = [] then Inr (map (\<lambda>match. (match, fl e 0, ''No clue provided'')) (take 3 matches))
      else
        (let key = feedback_key clue pattern;
             scored = (case similarity_model s of
                         Some sim \<Rightarrow> ai_ranking e s sim clue matches
                       | None \<Rightarrow> wordnet_ranking e clue matches)
         in case map_of (feedback_db s) key of
              None \<Rightarrow> scored
            | Some correct_word \<Rightarrow>
                if correct_word \<in> set matches
                then Inr [(correct_word, fl e 1, first_definition e correct_word ''User-corrected'')]
                else scored))"

text \<open>
  \<open>rank_by_clue\<close> of the second definition of the class. \<open>correct\<close> is a local variable
  exactly when the key is in the dictionary.
\<close>

definition rank_by_clue2 ::
  "'f::linorder env \<Rightarrow> 'f solver \<Rightarrow> string \<Rightarrow> string list \<Rightarrow> string \<Rightarrow> error + 'f ranked" where
  "rank_by_clue2 e s clue matches pattern =
     (if clue = [] then Inr (map (\<lambda>m. (m, fl e 0, ''No clue provided'')) (take 3 matches))
      else
        (let key = feedback_key clue pattern;
             ranked = (case map_of (feedback_db s) key of
                         None \<Rightarrow> []
                       | Some correct \<Rightarrow>
                           if re_match (pattern_to_regex pattern) correct
                           then [(correct, fl e 1, first_definition e correct ''User-provided'')]
                           else []);
             other_matches = (case map_of (feedback_db s) key of
                                None \<Rightarrow> matches
                              | Some correct \<Rightarrow> filter (\<lambda>m. m \<noteq> correct) matches)
         in case wordnet_ranking2 e clue other_matches of
              Inl err \<Rightarrow> Inl err
            | Inr other \<Rightarrow>
                (let ranked = ranked @ take 2 other
                 in if ranked = []
                    then (case wordnet_ranking2 e clue matches of
                            Inl err \<Rightarrow> Inl err
                          | Inr every \<Rightarrow> Inr (take 3 every))
                    else Inr ranked)))"

text \<open>
  \<open>solve\<close>: the new solver and what the call returns. When \<open>rank_by_clue\<close> raises,
  \<open>current_results\<close> is not assigned.
\<close>

definition solve ::
  "'f::linorder env \<Rightarrow> 'f solver \<Rightarrow> string \<Rightarrow> string \<Rightarrow> 'f solver \<times> (error + (string \<times> string) \<times> 'f ranked)" where
  "solve e s clue pattern =
     (let matches = find_matches e (word_list s) pattern clue
      in case rank_by_clue e s clue matches pattern of
           Inl err \<Rightarrow> (s, Inl err)
         | Inr ranked \<Rightarrow>
             (let results = ((clue, upper pattern), ranked)
              in (s\<lparr>current_results := Some results\<rparr>, Inr results)))"

definition solve2 ::
  "'f::linorder env \<Rightarrow> 'f solver \<Rightarrow> string \<Rightarrow> string \<Rightarrow> 'f solver \<times> (error + (string \<times> string) \<times> 'f ranked)" where
  "solve2 e s clue pattern =
     (let matches = find_matches e (word_list s) pattern clue
      in case rank_by_clue2 e s clue matches pattern of
           Inl err \<Rightarrow> (s, Inl err)
         | Inr ranked \<Rightarrow>
             (let results = ((clue, upper pattern), ranked)
              in (s\<lparr>current_results := Some results\<rparr>, Inr results)))"

section \<open>The feedback file\<close>

text \<open>
  \<open>json.dump(self.feedback_db, f, indent=4)\<close> for a dict of strings: one member on each
  line, four spaces in, \<open>{}\<close> for the empty dict. With \<open>ensure_ascii\<close> every character
  outside \<open>' '\<close> .. \<open>'~'\<close> is escaped.
\<close>

definition json_escape :: "char \<Rightarrow> string" where
  "json_escape c =
     (if c = CHR 0x22 then [CHR 0x5C, CHR 0x22]
      else if c = CHR 0x5C then [CHR 0x5C, CHR 0x5C]
      else if c = CHR 0x0A then [CHR 0x5C, CHR ''n'']
      else if c = CHR 0x0D then [CHR 0x5C, CHR ''r'']
      else if c = CHR 0x09 then [CHR 0x5C, CHR ''t'']
      else if c = CHR 0x0C then [CHR 0x5C, CHR ''f'']
      else if c = CHR 0x08 then [CHR 0x5C, CHR ''b'']
      else if code c < 32 \<or> 126 < code c
        then [CHR 0x5C, CHR ''u'', CHR ''0'', CHR ''0'', hex_digit (code c div 16), hex_digit (code c mod 16)]
      else [c])"

definition json_string :: "string \<Rightarrow> string" where
  "json_string s = [CHR 0x22] @ concat (map json_escape s) @ [CHR 0x22]"

definition json_member :: "string \<times> string \<Rightarrow> string" where
  "json_member kv = ''    '' @ json_string (fst kv) @ '': '' @ json_string (snd kv)"

fun json_members :: "(string \<times> string) list \<Rightarrow> string" where
  "json_members [] = []"
| "json_members [kv] = json_member kv"
| "json_members (kv # rest) = json_member kv @ [CHR '','', CHR 0x0A] @ json_members rest"

definition json_dump :: "(string \<times> string) list \<Rightarrow> string" where
  "json_dump db =
     (if db = [] then ''{}'' else [CHR ''{'', CHR 0x0A] @ json_members db @ [CHR 0x0A, CHR ''}''])"

text \<open>
  \<open>save_feedback\<close>: the new solver and the text written to \<open>feedback.json\<close>. Assigning to
  a key of a dict keeps the key's place, or adds the key at the end.
\<close>

definition store :: "(string \<times> string) list \<Rightarrow> string \<Rightarrow> string \<Rightarrow> string \<Rightarrow> (string \<times> string) list" where
  "store db clue pattern correct_word =
     (let key = feedback_key clue pattern in AList.update key (upper correct_word) db)"

definition save_feedback :: "'f solver \<Rightarrow> string \<Rightarrow> string \<Rightarrow> string \<Rightarrow> 'f solver \<times> string" where
  "save_feedback s clue pattern correct_word =
     (let db = store (feedback_db s) clue pattern correct_word
      in (s\<lparr>feedback_db := db\<rparr>, json_dump db))"

section \<open>The operations of the two front ends\<close>

text \<open>
  The application is the solver and the file \<open>feedback.json\<close> (\<open>None\<close> while there is no
  such file). An operation reads the entry fields, which are its arguments here, and
  returns the new application and what it shows; an exception that leaves the
  operation is the event \<open>Raised\<close>.
\<close>

record 'f app =
  solver :: "'f solver"
  feedback_json :: "string option"

datatype event =
    Showerror string string
  | Showinfo string string
  | Showwarning string string
  | Raised error

definition quoted :: "string \<Rightarrow> string" where
  "quoted s = [CHR 0x27] @ s @ [CHR 0x27]"

definition record_feedback :: "'f app \<Rightarrow> string \<Rightarrow> string \<Rightarrow> string \<Rightarrow> 'f app" where
  "record_feedback a clue pattern word =
     (case save_feedback (solver a) clue pattern word of
        (s, text) \<Rightarrow> a\<lparr>solver := s, feedback_json := Some text\<rparr>)"

text \<open>
  The first front end. \<open>_solve\<close> runs \<open>solve\<close> on a thread; here the thread has ended when
  the operation returns.
\<close>

definition gui_solve :: "'f::linorder env \<Rightarrow> 'f app \<Rightarrow> string \<Rightarrow> string \<Rightarrow> 'f app \<times> event list" where
  "gui_solve e a clue_entry pattern_entry =
     (let clue = strip clue_entry;
          pattern = strip pattern_entry;
          a = a\<lparr>solver := (solver a)\<lparr>excluded_words := []\<rparr>\<rparr>
      in if clue = [] then (a, [Showerror ''Error'' ''Please enter a clue''])
         else (case solve e (solver a) clue pattern of
                 (s, Inl err) \<Rightarrow> (a\<lparr>solver := s\<rparr>, [Raised err])
               | (s, Inr results) \<Rightarrow> (a\<lparr>solver := s\<rparr>, [])))"

text \<open>\<open>self.solver.current_results[(clue, pattern)][0][0]\<close>\<close>

definition top_match :: "'f solver \<Rightarrow> string \<Rightarrow> string \<Rightarrow> error + string" where
  "top_match s clue pattern =
     (case current_results s of
        None \<Rightarrow> Inl TypeError
      | Some (key, ranked) \<Rightarrow>
          if key \<noteq> (clue, pattern) then Inl KeyError
          else (case ranked of [] \<Rightarrow> Inl IndexError | first # rest \<Rightarrow> Inr (fst first)))"

definition process_feedback :: "'f app \<Rightarrow> bool \<Rightarrow> string \<Rightarrow> string \<Rightarrow> 'f app \<times> event list" where
  "process_feedback a is_correct clue pattern =
     (if is_correct
      then (case top_match (solver a) clue pattern of
              Inl err \<Rightarrow> (a, [Raised err])
            | Inr word \<Rightarrow>
                (record_feedback a clue pattern word, [Showinfo ''Thank you!'' ''Feedback recorded.'']))
      else (a, [Showinfo ''Help us improve'' ''Please enter the correct answer.'']))"

definition submit_correction ::
  "'f::linorder env \<Rightarrow> 'f app \<Rightarrow> string \<Rightarrow> string \<Rightarrow> string \<Rightarrow> 'f app \<times> event list" where
  "submit_correction e a clue pattern correct_entry =
     (let correction = upper (strip correct_entry)
      in if correction = [] then (a, [Showerror ''Error'' ''Please enter a correction''])
         else (case gui_solve e (record_feedback a clue pattern correction) clue pattern of
                 (a', events) \<Rightarrow> (a', Showinfo ''Success'' ''Correction saved!'' # events)))"

text \<open>The second front end.\<close>

definition gui_solve2 :: "'f::linorder env \<Rightarrow> 'f app \<Rightarrow> string \<Rightarrow> string \<Rightarrow> 'f app \<times> event list" where
  "gui_solve2 e a clue_entry pattern_entry =
     (let clue = strip clue_entry;
          pattern = upper (strip pattern_entry)
      in if clue = [] \<or> pattern = []
         then (a, [Showwarning ''Input Error'' ''Please enter both clue and pattern.''])
         else (case solve2 e (solver a) clue pattern of
                 (s, Inl err) \<Rightarrow> (a\<lparr>solver := s\<rparr>, [Raised err])
               | (s, Inr results) \<Rightarrow> (a\<lparr>solver := s\<rparr>, [])))"

definition saved_text :: "string \<Rightarrow> string \<Rightarrow> string \<Rightarrow> string" where
  "saved_text word clue pattern =
     ''Word '' @ quoted word @ '' saved as feedback for clue '' @ quoted clue
       @ '' and pattern '' @ quoted pattern @ ''.''"

definition gui_save_feedback2 ::
  "'f app \<Rightarrow> string option \<Rightarrow> string \<Rightarrow> string \<Rightarrow> 'f app \<times> event list" where
  "gui_save_feedback2 a selected clue_entry pattern_entry =
     (case selected of
        None \<Rightarrow> (a, [Showwarning ''Selection Error'' ''Please select a word to save as feedback.''])
      | Some word \<Rightarrow>
          (let clue = strip clue_entry;
               pattern = upper (strip pattern_entry)
           in (record_feedback a clue pattern word,
               [Showinfo ''Feedback Saved'' (saved_text word clue pattern)])))"

definition enter_correct_word ::
  "'f::linorder env \<Rightarrow> 'f app \<Rightarrow> string \<Rightarrow> string \<Rightarrow> string option \<Rightarrow> 'f app \<times> event list" where
  "enter_correct_word e a clue_entry pattern_entry answer =
     (let clue = strip clue_entry;
          pattern = upper (strip pattern_entry)
      in if clue = [] \<or> pattern = []
         then (a, [Showwarning ''Input Error'' ''Please enter both clue and pattern.''])
         else (case answer of
                 None \<Rightarrow> (a, [])
               | Some typed \<Rightarrow>
                   if typed = [] then (a, [])
                   else
                     (let correct_word = upper (strip typed);
                          regex = pattern_to_regex pattern
                      in if \<not> re_match regex correct_word
                         then (a, [Showerror ''Invalid Word''
                                     (''The word '' @ quoted correct_word
                                        @ '' does not match the pattern '' @ quoted pattern @ ''.'')])
                         else (case gui_solve2 e (record_feedback a clue pattern correct_word) clue pattern of
                                 (a', events) \<Rightarrow>
                                   (a', Showinfo ''Feedback Saved'' (saved_text correct_word clue pattern)
                                          # events)))))"

text \<open>Every operation that a front end or a caller can run on the solver.\<close>

datatype op =
    Solve string string
  | Solve2 string string
  | Save_feedback string string string
  | Gui_solve string string
  | Process_feedback bool string string
  | Submit_correction string string string
  | Gui_solve2 string string
  | Gui_save_feedback2 "string option" string string
  | Enter_correct_word string string "string option"

fun exec :: "'f::linorder env \<Rightarrow> op \<Rightarrow> 'f app \<Rightarrow> 'f app" where
  "exec e (Solve clue pattern) a = a\<lparr>solver := fst (solve e (solver a) clue pattern)\<rparr>"
| "exec e (Solve2 clue pattern) a = a\<lparr>solver := fst (solve2 e (solver a) clue pattern)\<rparr>"
| "exec e (Save_feedback clue pattern word) a = record_feedback a clue pattern word"
| "exec e (Gui_solve clue pattern) a = fst (gui_solve e a clue pattern)"
| "exec e (Process_feedback is_correct clue pattern) a = fst (process_feedback a is_correct clue pattern)"
| "exec e (Submit_correction clue pattern correction) a = fst (submit_correction e a clue pattern correction)"
| "exec e (Gui_solve2 clue pattern) a = fst (gui_solve2 e a clue pattern)"
| "exec e (Gui_save_feedback2 selected clue pattern) a = fst (gui_save_feedback2 a selected clue pattern)"
| "exec e (Enter_correct_word clue pattern answer) a = fst (enter_correct_word e a clue pattern answer)"

section \<open>Reading the feedback file\<close>

text \<open>
  \<open>json.load\<close> on the texts that \<open>json.dump\<close> writes for a dict of strings: an object
  whose members are strings, with any JSON whitespace between the tokens. Other JSON
  texts, which the solver never writes, and escapes \<open>\u\<close> above \<open>00ff\<close> are outside this
  model and are read as malformed.
\<close>

definition json_ws :: "char \<Rightarrow> bool" where
  "json_ws c = (c = CHR '' '' \<or> c = CHR 0x09 \<or> c = CHR 0x0A \<or> c = CHR 0x0D)"

definition hex_value :: "char \<Rightarrow> nat option" where
  "hex_value c =
     (if 48 \<le> code c \<and> code c \<le> 57 then Some (code c - 48)
      else if 97 \<le> code c \<and> code c \<le> 102 then Some (code c - 87)
      else if 65 \<le> code c \<and> code c \<le> 70 then Some (code c - 55)
      else None)"

text \<open>The character that a backslash and \<open>c\<close> stand for.\<close>

definition json_unescape :: "char \<Rightarrow> char option" where
  "json_unescape c =
     (if c = CHR 0x22 then Some (CHR 0x22)
      else if c = CHR 0x5C then Some (CHR 0x5C)
      else if c = CHR ''/'' then Some (CHR ''/'')
      else if c = CHR ''b'' then Some (CHR 0x08)
      else if c = CHR ''f'' then Some (CHR 0x0C)
      else if c = CHR ''n'' then Some (CHR 0x0A)
      else if c = CHR ''r'' then Some (CHR 0x0D)
      else if c = CHR ''t'' then Some (CHR 0x09)
      else None)"

definition hex4 :: "char \<Rightarrow> char \<Rightarrow> char \<Rightarrow> char \<Rightarrow> char option" where
  "hex4 h1 h2 h3 h4 =
     (case (hex_value h1, hex_value h2, hex_value h3, hex_value h4) of
        (Some a, Some b, Some c, Some d) \<Rightarrow>
          if a = 0 \<and> b = 0 then Some (char_of (16 * c + d)) else None
      | _ \<Rightarrow> None)"

text \<open>
  The string that starts after an opening quote, and the text after its closing quote.
  A control character inside a string is an error.
\<close>

fun scan_string :: "string \<Rightarrow> (string \<times> string) option" where
  "scan_string [] = None"
| "scan_string (c # cs) =
     (if c = CHR 0x22 then Some ([], cs)
      else if c = CHR 0x5C then
        (case cs of
           [] \<Rightarrow> None
         | d # ds \<Rightarrow>
             if d = CHR ''u'' then
               (case ds of
                  h1 # h2 # h3 # h4 # rest \<Rightarrow>
                    (case hex4 h1 h2 h3 h4 of
                       None \<Rightarrow> None
                     | Some x \<Rightarrow>
                         (case scan_string rest of None \<Rightarrow> None | Some (s, r) \<Rightarrow> Some (x # s, r)))
                | _ \<Rightarrow> None)
             else
               (case json_unescape d of
                  None \<Rightarrow> None
                | Some x \<Rightarrow>
                    (case scan_string ds of None \<Rightarrow> None | Some (s, r) \<Rightarrow> Some (x # s, r))))
      else if code c < 32 then None
      else (case scan_string cs of None \<Rightarrow> None | Some (s, r) \<Rightarrow> Some (c # s, r)))"

text \<open>
  The members of an object, from the quote of the first key to the closing brace.
  Every round reads at least one character, so the length of the text is fuel enough.
\<close>

fun parse_members :: "nat \<Rightarrow> string \<Rightarrow> ((string \<times> string) list \<times> string) option" where
  "parse_members 0 text = None"
| "parse_members (Suc fuel) text =
     (case text of
        [] \<Rightarrow> None
      | q # after_quote \<Rightarrow>
          if q \<noteq> CHR 0x22 then None
          else
            (case scan_string after_quote of
               None \<Rightarrow> None
             | Some (key, after_key) \<Rightarrow>
                 (case dropWhile json_ws after_key of
                    [] \<Rightarrow> None
                  | colon # after_colon \<Rightarrow>
                      if colon \<noteq> CHR '':'' then None
                      else
                        (case dropWhile json_ws after_colon of
                           [] \<Rightarrow> None
                         | q2 # after_quote2 \<Rightarrow>
                             if q2 \<noteq> CHR 0x22 then None
                             else
                               (case scan_string after_quote2 of
                                  None \<Rightarrow> None
                                | Some (val, after_val) \<Rightarrow>
                                    (case dropWhile json_ws after_val of
                                       [] \<Rightarrow> None
                                     | sep # after_sep \<Rightarrow>
                                         if sep = CHR ''}'' then Some ([(key, val)], after_sep)
                                         else if sep = CHR '','' then
                                           (case parse_members fuel (dropWhile json_ws after_sep) of
                                              None \<Rightarrow> None
                                            | Some (kvs, r) \<Rightarrow> Some ((key, val) # kvs, r))
                                         else None))))))"

definition json_object :: "string \<Rightarrow> (string \<times> string) list option" where
  "json_object text =
     (case dropWhile json_ws text of
        [] \<Rightarrow> None
      | brace # after_brace \<Rightarrow>
          if brace \<noteq> CHR ''{'' then None
          else
            (case dropWhile json_ws after_brace of
               [] \<Rightarrow> None
             | c # cs \<Rightarrow>
                 if c = CHR ''}'' then (if dropWhile json_ws cs = [] then Some [] else None)
                 else
                   (case parse_members (length text) (c # cs) of
                      None \<Rightarrow> None
                    | Some (kvs, r) \<Rightarrow> if dropWhile json_ws r = [] then Some kvs else None)))"

text \<open>The dict of the members in the order read: a later member with the same key wins.\<close>

definition dict_of :: "(string \<times> string) list \<Rightarrow> (string \<times> string) list" where
  "dict_of kvs = foldl (\<lambda>d kv. AList.update (fst kv) (snd kv) d) [] kvs"

text \<open>
  \<open>load_feedback_database\<close>: \<open>{}\<close> when the file is missing (\<open>None\<close>) or is not JSON.
\<close>

definition load_feedback_database :: "string option \<Rightarrow> (string \<times> string) list" where
  "load_feedback_database file =
     (case file of
        None \<Rightarrow> []
      | Some text \<Rightarrow> (case json_object text of None \<Rightarrow> [] | Some kvs \<Rightarrow> dict_of kvs))"

text \<open>
  The feedback dicts that the solver can hold: the one loaded when it is made, and
  what the assignment in \<open>save_feedback\<close> makes of one of them.
\<close>

inductive reachable_db :: "(string \<times> string) list \<Rightarrow> bool" where
  loaded: "reachable_db (load_feedback_database file)"
| recorded: "reachable_db db \<Longrightarrow> reachable_db (store db clue pattern word)"

section \<open>What the specification says\<close>

text \<open>
  The estimated length in the words of the specification:
  \<open>clamp(round(token_count * 1.5), 2, 15)\<close>.
\<close>

definition spec_estimated_length :: "nat \<Rightarrow> nat" where
  "spec_estimated_length token_count = max 2 (min 15 (nat (round (real token_count * 3 / 2))))"

section \<open>A small WordNet and a small word file\<close>

definition demo_tokenize :: "string \<Rightarrow> string list" where
  "demo_tokenize s = filter (\<lambda>w. w \<noteq> []) (split_on CHR '' '' s)"

definition demo_synsets :: "string \<Rightarrow> synset list" where
  "demo_synsets w =
     (if w = ''cat''
      then [\<lparr>syn_name = ''cat.n.01'',
             syn_definition = ''feline mammal usually having thick soft fur'',
             syn_hypernyms = [''feline.n.01'']\<rparr>]
      else if w = ''cot''
      then [\<lparr>syn_name = ''cot.n.03'',
             syn_definition = ''a small bed that folds up for storage or transport'',
             syn_hypernyms = [''bed.n.01'']\<rparr>]
      else [])"

definition demo_env :: "rat env" where
  "demo_env =
     \<lparr>tokenizer = Some demo_tokenize, lemmatize = (\<lambda>w. w), synsets = demo_synsets,
      fl = (\<lambda>q. q), fl_add = (+), fl_mul = (*)\<rparr>"

definition no_punkt_env :: "rat env" where
  "no_punkt_env = demo_env\<lparr>tokenizer := None\<rparr>"

definition demo_lines :: "string list" where
  "demo_lines = map (\<lambda>w. w @ [CHR 0x0A]) [''cat'', ''cot'', ''cut'', ''dog'', ''lion'', ''elephant'', ''ox'']"

definition demo_solver :: "rat solver" where
  "demo_solver =
     \<lparr>word_list = load_word_database (Some demo_lines), feedback_db = [], excluded_words = [],
      current_results = None, similarity_model = None\<rparr>"

definition demo_app :: "rat app" where
  "demo_app = \<lparr>solver = demo_solver, feedback_json = None\<rparr>"



definition solver_dog :: "rat solver" where
  "solver_dog = demo_solver\<lparr>feedback_db := [(feedback_key ''feline pet'' ''C?T'', ''DOG'')]\<rparr>"

definition solver_wild :: "rat solver" where
  "solver_wild = demo_solver\<lparr>feedback_db := [(feedback_key ''feline pet'' ''??'', ''CAT'')]\<rparr>"

section \<open>Ranked lists\<close>


section \<open>Characters and words\<close>

lemma code_char_of: "n < 256 \<Longrightarrow> code (char_of n) = n"
  by (simp add: code_def)

lemma code_lt: "code c < 256"
  unfolding code_def by (metis of_char_mod_256 mod_less_divisor zero_less_numeral)

lemma code_inj: "code a = code b \<Longrightarrow> a = b"
  unfolding code_def by simp

lemma char_of_code: "char_of (code c) = c"
  by (simp add: code_def)

lemma letter_not_space: "ascii_letter c \<or> c = CHR ''?'' \<Longrightarrow> \<not> isspace c"
  by (auto simp: ascii_letter_def isspace_def is_AZ_def is_az_def code_def)

lemma letter_alpha: "ascii_letter c \<Longrightarrow> isalpha c"
  by (simp add: isalpha_def)

lemma question_not_alpha: "\<not> isalpha (CHR ''?'')"
  by (simp add: isalpha_def ascii_letter_def is_AZ_def is_az_def code_def)

lemma letter_one_capital: "ascii_letter c \<Longrightarrow> length (upper_points c) = 1"
  by (auto simp: upper_points_def ascii_letter_def is_AZ_def is_az_def)

lemma upper_char_not_Nil: "upper_char c \<noteq> []"
  by (simp add: upper_char_def upper_points_def)

lemma upper_char_newline:
  assumes "last (upper_char c) = CHR 0x0A"
  shows "c = CHR 0x0A"
proof -
  have ten: "code (last (upper_char c)) = 10" by (simp add: assms code_def)
  have "code c = 10"
  proof (cases "code c = 181 \<or> code c = 255")
    case True
    then show ?thesis using ten by (auto simp: upper_char_def)
  next
    case False
    then show ?thesis using ten code_lt[of c]
      by (auto simp: upper_char_def upper_points_def is_az_def code_char_of split: if_splits)
  qed
  then have "code c = code (CHR 0x0A)" by (simp add: code_def)
  then show ?thesis by (rule code_inj)
qed

lemma last_concat_map:
  "s \<noteq> [] \<Longrightarrow> (\<And>c. f c \<noteq> []) \<Longrightarrow> last (concat (map f s)) = last (f (last s))"
  by (induction s) (auto simp: last_append)

lemma last_upper: "s \<noteq> [] \<Longrightarrow> last (upper s) = last (upper_char (last s))"
  unfolding upper_def by (rule last_concat_map) (simp_all add: upper_char_not_Nil)

lemma upper_not_Nil: "s \<noteq> [] \<Longrightarrow> upper s \<noteq> []"
  by (cases s) (auto simp: upper_def upper_char_not_Nil)

lemma strip_last: "strip s \<noteq> [] \<Longrightarrow> \<not> isspace (last (strip s))"
  unfolding strip_def by (metis hd_dropWhile last_rev rev_is_Nil_conv)

lemma strip_id: "s \<noteq> [] \<Longrightarrow> \<forall>c\<in>set s. \<not> isspace c \<Longrightarrow> strip s = s"
  unfolding strip_def
  by (metis dropWhile_eq_self_iff hd_in_set hd_rev last_in_set rev_rev_ident)

lemma strip_empty_all_space: "strip p = [] \<Longrightarrow> \<forall>c\<in>set p. isspace c"
proof -
  assume "strip p = []"
  then have a: "dropWhile isspace (rev (dropWhile isspace p)) = []" by (simp add: strip_def)
  have "dropWhile isspace p = []"
  proof (rule ccontr)
    assume ne: "dropWhile isspace p \<noteq> []"
    then have "\<not> isspace (hd (dropWhile isspace p))" by (rule hd_dropWhile)
    moreover have "hd (dropWhile isspace p) \<in> set (rev (dropWhile isspace p))" using ne by simp
    ultimately show False using a by (metis dropWhile_eq_Nil_conv)
  qed
  then show ?thesis by (simp add: dropWhile_eq_Nil_conv)
qed

lemma question_not_space: "\<not> isspace (CHR ''?'')"
  by (simp add: isspace_def code_def)

text \<open>A word of the loaded word list is not empty and does not end with a newline.\<close>

lemma loaded_word_end:
  assumes "w \<in> set (load_word_database f)"
  shows "w \<noteq> [] \<and> last w \<noteq> CHR 0x0A"
proof -
  from assms obtain line where l: "strip line \<noteq> []" and w: "w = upper (strip line)"
    by (auto simp: load_word_database_def split: option.splits)
  have ne: "w \<noteq> []" using l w by (simp add: upper_not_Nil)
  have "last w = last (upper_char (last (strip line)))"
    using l w by (simp add: last_upper)
  moreover have "\<not> isspace (last (strip line))" using l by (rule strip_last)
  moreover have "isspace (CHR 0x0A)" by (simp add: isspace_def code_def)
  ultimately have "last w \<noteq> CHR 0x0A" using upper_char_newline by metis
  with ne show ?thesis by simp
qed

section \<open>The candidate filter\<close>

lemma regex_of_strict_pattern:
  assumes "pattern \<noteq> []" and "\<forall>c\<in>set pattern. ascii_letter c \<or> c = CHR ''?''"
  shows "\<exists>as. pattern_to_regex pattern = Exact as \<and> length as = length pattern"
proof -
  let ?f = "\<lambda>c. if \<not> isalpha c then [Upper_class] else map Lit (upper_points c)"
  have "\<forall>c\<in>set pattern. \<not> isspace c" using assms(2) letter_not_space by blast
  then have "strip pattern = pattern" using assms(1) strip_id by blast
  then have r: "pattern_to_regex pattern = Exact (concat (map ?f pattern))"
    using assms(1) by (simp add: pattern_to_regex_def)
  have "\<forall>c\<in>set pattern. length (?f c) = 1"
    using assms(2) letter_one_capital question_not_alpha by auto
  then have "length (concat (map ?f pattern)) = length pattern"
    by (induction pattern) auto
  with r show ?thesis by blast
qed

lemma re_match_Exact_length:
  "re_match (Exact as) w \<Longrightarrow> w = [] \<or> last w \<noteq> CHR 0x0A \<Longrightarrow> length w = length as"
  by (auto simp: re_match_def dest: list_all2_lengthD)

lemma body_subset:
  "find_matches_body e wl pattern clue = Inr ms \<Longrightarrow>
   set ms \<subseteq> {w \<in> set wl. re_match (pattern_to_regex pattern) w}"
  by (auto simp: find_matches_body_def Let_def split: if_splits sum.splits)

text \<open>
  The \<open>try\<close> block raises exactly when the tokenizer is called and is missing.
\<close>

lemma body_fails_iff:
  "(\<exists>err. find_matches_body e wl pattern clue = Inl err) \<longleftrightarrow>
     (tokenizer e = None \<and> (pattern = [] \<or> list_all (\<lambda>c. c = CHR ''?'') pattern))"
  by (auto simp: find_matches_body_def Let_def word_tokenize_def
           split: if_splits sum.splits option.splits)

text \<open>
  C1, as the code has it. For a pattern that is not empty and holds only ASCII letters
  and \<open>?\<close>, every word that \<open>find_matches\<close> returns from a loaded word list is as long
  as the pattern, when the pattern holds a letter or the tokenizer is there. (With only
  \<open>?\<close> in the pattern and no tokenizer, the \<open>except\<close> branch returns the first 100 words
  whatever their length.)
\<close>

theorem find_matches_exact_length:
  assumes "pattern \<noteq> []"
    and "\<forall>c\<in>set pattern. ascii_letter c \<or> c = CHR ''?''"
    and "tokenizer e \<noteq> None \<or> (\<exists>c\<in>set pattern. c \<noteq> CHR ''?'')"
    and "w \<in> set (find_matches e (load_word_database f) pattern clue)"
  shows "length w = length pattern"
proof -
  let ?wl = "load_word_database f"
  have "\<not> (\<exists>err. find_matches_body e ?wl pattern clue = Inl err)"
    using assms(1,3) by (auto simp: body_fails_iff list_all_iff)
  then obtain ms where ms: "find_matches_body e ?wl pattern clue = Inr ms"
    by (cases "find_matches_body e ?wl pattern clue") auto
  then have "w \<in> set ms" using assms(4) by (simp add: find_matches_def)
  then have wl: "w \<in> set ?wl" and m: "re_match (pattern_to_regex pattern) w"
    using body_subset[OF ms] by auto
  have "last w \<noteq> CHR 0x0A" using loaded_word_end[OF wl] by simp
  moreover obtain as where "pattern_to_regex pattern = Exact as" and "length as = length pattern"
    using regex_of_strict_pattern[OF assms(1,2)] by blast
  ultimately show ?thesis using m re_match_Exact_length by metis
qed

theorem find_matches_exact_length_witness:
  "''COT'' \<in> set (find_matches demo_env (load_word_database (Some demo_lines)) ''C?T'' ''feline pet'')
   \<and> length ''COT'' = length ''C?T''"
proof -
  have a: "''C?T'' \<noteq> []" by simp
  have b: "\<forall>c\<in>set ''C?T''. ascii_letter c \<or> c = CHR ''?''" by code_simp
  have c: "tokenizer demo_env \<noteq> None \<or> (\<exists>c\<in>set ''C?T''. c \<noteq> CHR ''?'')" by code_simp
  have d: "''COT'' \<in> set (find_matches demo_env (load_word_database (Some demo_lines)) ''C?T'' ''feline pet'')"
    by code_simp
  have r: "length ''COT'' = length ''C?T''" by (rule find_matches_exact_length[OF a b c d])
  show ?thesis by (intro conjI d r)
qed

text \<open>
  C1 as stated fails: with no tokenizer the pattern \<open>??\<close> gives back the words of three
  and more letters at the head of the word list.
\<close>

theorem find_matches_fallback_length_counterexample:
  "find_matches no_punkt_env (load_word_database (Some demo_lines)) ''??'' ''feline pet''
     = [''CAT'', ''COT'', ''CUT'', ''DOG'', ''LION'', ''ELEPHANT'', ''OX'']
   \<and> length ''CAT'' \<noteq> length ''??''"
  by code_simp

text \<open>
  C7. When the \<open>try\<close> block of \<open>find_matches\<close> raises, \<open>find_matches\<close> returns the first
  100 words of the word list, in its order: at most 100 words, and at least one when
  the word list is not empty.
\<close>

theorem find_matches_fallback:
  assumes "find_matches_body e wl pattern clue = Inl err"
  shows "find_matches e wl pattern clue = take 100 wl
    \<and> length (find_matches e wl pattern clue) \<le> 100
    \<and> (wl \<noteq> [] \<longrightarrow> find_matches e wl pattern clue \<noteq> [])"
  using assms by (simp add: find_matches_def)

theorem find_matches_fallback_witness:
  "find_matches_body no_punkt_env (load_word_database (Some demo_lines)) ''??'' ''feline pet''
     = Inl LookupError
   \<and> find_matches no_punkt_env (load_word_database (Some demo_lines)) ''??'' ''feline pet''
     = take 100 (load_word_database (Some demo_lines))
   \<and> length (find_matches no_punkt_env (load_word_database (Some demo_lines)) ''??'' ''feline pet'') \<le> 100
   \<and> find_matches no_punkt_env (load_word_database (Some demo_lines)) ''??'' ''feline pet'' \<noteq> []"
proof -
  have a: "find_matches_body no_punkt_env (load_word_database (Some demo_lines)) ''??'' ''feline pet''
     = Inl LookupError" by code_simp
  have b: "load_word_database (Some demo_lines) \<noteq> []" by code_simp
  show ?thesis using a b find_matches_fallback[OF a] by (intro conjI) simp_all
qed

lemma find_matches_strict:
  "pattern \<noteq> [] \<Longrightarrow> \<not> list_all (\<lambda>c. c = CHR ''?'') pattern \<Longrightarrow>
   find_matches e wl pattern clue = filter (re_match (pattern_to_regex pattern)) wl"
  by (simp add: find_matches_def find_matches_body_def)

lemma find_matches_vague:
  "pattern = [] \<or> list_all (\<lambda>c. c = CHR ''?'') pattern \<Longrightarrow> tokenizer e = Some t \<Longrightarrow>
   find_matches e wl pattern clue =
     filter (near (est_len (length (t (lower clue))))) (filter (re_match (pattern_to_regex pattern)) wl)"
  by (auto simp: find_matches_def find_matches_body_def word_tokenize_def)

lemma find_matches_vague_fallback:
  "pattern = [] \<or> list_all (\<lambda>c. c = CHR ''?'') pattern \<Longrightarrow> tokenizer e = None \<Longrightarrow>
   find_matches e wl pattern clue = take 100 wl"
  by (auto simp: find_matches_def find_matches_body_def word_tokenize_def)

lemma regex_of_wild_pattern:
  assumes "strip pattern \<noteq> []" and "\<forall>c\<in>set pattern. \<not> isalpha c"
  shows "pattern_to_regex pattern = Exact (replicate (length pattern) Upper_class)"
proof -
  have "pattern \<noteq> []" using assms(1) by (auto simp: strip_def)
  moreover have "concat (map (\<lambda>c. if \<not> isalpha c then [Upper_class] else map Lit (upper_points c)) pattern)
      = replicate (length pattern) Upper_class"
    using assms(2) by (induction pattern) auto
  ultimately show ?thesis using assms(1) by (simp add: pattern_to_regex_def)
qed

text \<open>
  C10, as the code has it. The clue's estimated length comes into play exactly when
  the pattern is empty or holds only \<open>?\<close>. A pattern with another character gives
  every word that matches its regular expression, whatever the clue. An empty or
  all-\<open>?\<close> pattern gives the matches near the estimated length when the tokenizer
  returns, and the first 100 words of the word list, not narrowed, when it raises. So
  a pattern of whitespace, which compiles to \<open>^[A-Z]{2,15}$\<close>, and a pattern of
  characters that are neither letters nor \<open>?\<close>, which compiles to one \<open>[A-Z]\<close> for
  each character, are never narrowed.
\<close>

theorem narrowing_condition:
  "(pattern \<noteq> [] \<and> \<not> list_all (\<lambda>c. c = CHR ''?'') pattern \<longrightarrow>
      find_matches e wl pattern clue = filter (re_match (pattern_to_regex pattern)) wl)
   \<and> (pattern = [] \<or> list_all (\<lambda>c. c = CHR ''?'') pattern \<longrightarrow>
      find_matches e wl pattern clue =
        (case tokenizer e of
           None \<Rightarrow> take 100 wl
         | Some t \<Rightarrow>
             filter (near (est_len (length (t (lower clue)))))
               (filter (re_match (pattern_to_regex pattern)) wl)))
   \<and> (pattern \<noteq> [] \<and> strip pattern = [] \<longrightarrow>
      find_matches e wl pattern clue = filter (re_match Default_range) wl)
   \<and> (strip pattern \<noteq> [] \<and> (\<forall>c\<in>set pattern. \<not> isalpha c \<and> c \<noteq> CHR ''?'') \<longrightarrow>
      find_matches e wl pattern clue =
        filter (re_match (Exact (replicate (length pattern) Upper_class))) wl)"
proof (intro conjI impI)
  assume "pattern \<noteq> [] \<and> \<not> list_all (\<lambda>c. c = CHR ''?'') pattern"
  then show "find_matches e wl pattern clue = filter (re_match (pattern_to_regex pattern)) wl"
    by (simp add: find_matches_strict)
next
  assume v: "pattern = [] \<or> list_all (\<lambda>c. c = CHR ''?'') pattern"
  show "find_matches e wl pattern clue =
        (case tokenizer e of
           None \<Rightarrow> take 100 wl
         | Some t \<Rightarrow>
             filter (near (est_len (length (t (lower clue)))))
               (filter (re_match (pattern_to_regex pattern)) wl))"
  proof (cases "tokenizer e")
    case None
    then show ?thesis using find_matches_vague_fallback[OF v None] by simp
  next
    case (Some t)
    then show ?thesis using find_matches_vague[OF v Some] by simp
  qed
next
  assume h: "pattern \<noteq> [] \<and> strip pattern = []"
  then have "\<forall>c\<in>set pattern. isspace c" using strip_empty_all_space by blast
  then have "\<not> list_all (\<lambda>c. c = CHR ''?'') pattern"
    using h question_not_space by (cases pattern) auto
  then show "find_matches e wl pattern clue = filter (re_match Default_range) wl"
    using h by (simp add: find_matches_strict pattern_to_regex_def)
next
  assume h: "strip pattern \<noteq> [] \<and> (\<forall>c\<in>set pattern. \<not> isalpha c \<and> c \<noteq> CHR ''?'')"
  then have s: "strip pattern \<noteq> []" and na: "\<forall>c\<in>set pattern. \<not> isalpha c"
    and nq: "\<forall>c\<in>set pattern. c \<noteq> CHR ''?''" by blast+
  have ne: "pattern \<noteq> []" using s by (auto simp: strip_def)
  have nv: "\<not> list_all (\<lambda>c. c = CHR ''?'') pattern" using ne nq by (cases pattern) simp_all
  show "find_matches e wl pattern clue =
      filter (re_match (Exact (replicate (length pattern) Upper_class))) wl"
    using find_matches_strict[OF ne nv] regex_of_wild_pattern[OF s na] by simp
qed

theorem narrowing_condition_witness:
  "find_matches demo_env (load_word_database (Some demo_lines)) ''  '' ''pet''
     = [''CAT'', ''COT'', ''CUT'', ''DOG'', ''LION'', ''ELEPHANT'', ''OX'']
   \<and> find_matches demo_env (load_word_database (Some demo_lines)) [CHR 0xA0, CHR 0xA0] ''pet''
     = [''CAT'', ''COT'', ''CUT'', ''DOG'', ''LION'', ''ELEPHANT'', ''OX'']
   \<and> \<not> near (est_len (length (demo_tokenize (lower ''pet'')))) ''ELEPHANT''
   \<and> find_matches demo_env (load_word_database (Some demo_lines)) ''##'' ''large grey animal with trunk''
     = [''OX'']
   \<and> \<not> near (est_len (length (demo_tokenize (lower ''large grey animal with trunk'')))) ''OX''
   \<and> find_matches demo_env (load_word_database (Some demo_lines)) ''??'' ''large grey animal with trunk''
     = []
   \<and> find_matches no_punkt_env (load_word_database (Some demo_lines)) ''??'' ''large grey animal with trunk''
     = take 100 (load_word_database (Some demo_lines))"
proof -
  let ?W = "load_word_database (Some demo_lines)"
  let ?clue = "''large grey animal with trunk''"
  note nc = narrowing_condition[where e = demo_env and wl = ?W]
  have s1: "''  '' \<noteq> [] \<and> strip ''  '' = []" by code_simp
  have "find_matches demo_env ?W ''  '' ''pet'' = filter (re_match Default_range) ?W"
    using nc[of "''  ''" "''pet''"] s1 by blast
  also have "\<dots> = [''CAT'', ''COT'', ''CUT'', ''DOG'', ''LION'', ''ELEPHANT'', ''OX'']"
    by code_simp
  finally have a: "find_matches demo_env ?W ''  '' ''pet''
     = [''CAT'', ''COT'', ''CUT'', ''DOG'', ''LION'', ''ELEPHANT'', ''OX'']" .
  have s1': "[CHR 0xA0, CHR 0xA0] \<noteq> [] \<and> strip [CHR 0xA0, CHR 0xA0] = []" by code_simp
  have "find_matches demo_env ?W [CHR 0xA0, CHR 0xA0] ''pet'' = filter (re_match Default_range) ?W"
    using nc[of "[CHR 0xA0, CHR 0xA0]" "''pet''"] s1' by blast
  also have "\<dots> = [''CAT'', ''COT'', ''CUT'', ''DOG'', ''LION'', ''ELEPHANT'', ''OX'']"
    by code_simp
  finally have a': "find_matches demo_env ?W [CHR 0xA0, CHR 0xA0] ''pet''
     = [''CAT'', ''COT'', ''CUT'', ''DOG'', ''LION'', ''ELEPHANT'', ''OX'']" .
  have b: "\<not> near (est_len (length (demo_tokenize (lower ''pet'')))) ''ELEPHANT''"
    by code_simp
  have s2: "strip ''##'' \<noteq> [] \<and> (\<forall>c\<in>set ''##''. \<not> isalpha c \<and> c \<noteq> CHR ''?'')"
    by code_simp
  have "find_matches demo_env ?W ''##'' ?clue
      = filter (re_match (Exact (replicate (length ''##'') Upper_class))) ?W"
    using nc[of "''##''" ?clue] s2 by blast
  also have "\<dots> = [''OX'']" by code_simp
  finally have c: "find_matches demo_env ?W ''##'' ?clue = [''OX'']" .
  have d: "\<not> near (est_len (length (demo_tokenize (lower ?clue)))) ''OX''" by code_simp
  have s3: "''??'' = [] \<or> list_all (\<lambda>c. c = CHR ''?'') ''??''" by simp
  have t3: "tokenizer demo_env = Some demo_tokenize" by (simp add: demo_env_def)
  have "find_matches demo_env ?W ''??'' ?clue
      = filter (near (est_len (length (demo_tokenize (lower ?clue)))))
          (filter (re_match (pattern_to_regex ''??'')) ?W)"
    using nc[of "''??''" ?clue] s3 t3 by simp
  also have "\<dots> = []" by code_simp
  finally have e: "find_matches demo_env ?W ''??'' ?clue = []" .
  have t4: "tokenizer no_punkt_env = None" by (simp add: no_punkt_env_def)
  have f: "find_matches no_punkt_env ?W ''??'' ?clue = take 100 ?W"
    using narrowing_condition[of "''??''" no_punkt_env ?W ?clue] s3 t4 by simp
  show ?thesis by (intro conjI a a' b c d e f)
qed

text \<open>
  C10 as stated fails: with no tokenizer the all-\<open>?\<close> pattern \<open>??\<close> gives back the head
  of the word list, which is no narrowing of the one word that matches the pattern.
\<close>

theorem narrowing_not_applied_counterexample:
  "list_all (\<lambda>c. c = CHR ''?'') ''??''
   \<and> filter (re_match (pattern_to_regex ''??'')) (load_word_database (Some demo_lines)) = [''OX'']
   \<and> find_matches no_punkt_env (load_word_database (Some demo_lines)) ''??'' ''feline pet''
       = [''CAT'', ''COT'', ''CUT'', ''DOG'', ''LION'', ''ELEPHANT'', ''OX'']"
proof -
  have a: "list_all (\<lambda>c. c = CHR ''?'') ''??''" by simp
  have b: "filter (re_match (pattern_to_regex ''??'')) (load_word_database (Some demo_lines)) = [''OX'']"
    by code_simp
  have c: "find_matches no_punkt_env (load_word_database (Some demo_lines)) ''??'' ''feline pet''
       = [''CAT'', ''COT'', ''CUT'', ''DOG'', ''LION'', ''ELEPHANT'', ''OX'']" by code_simp
  show ?thesis by (intro conjI a b c)
qed

lemma est_len_floor: "int (est_len n) = max 2 (min 15 \<lfloor>real n * 3 / 2\<rfloor>)"
proof -
  have "real n * 3 / 2 = real (3 * n) / real 2" by simp
  then have "\<lfloor>real n * 3 / 2\<rfloor> = int ((3 * n) div 2)"
    by (simp only: floor_divide_of_nat_eq)
  then show ?thesis by (simp add: est_len_def)
qed

lemma spec_estimated_length_5: "spec_estimated_length 5 = 8"
proof -
  have "real 5 * 3 / 2 + 1 / 2 = (8::real)" by simp
  then have "round (real 5 * 3 / 2) = 8" unfolding round_def by (simp only: floor_numeral)
  then show ?thesis unfolding spec_estimated_length_def by simp
qed

text \<open>
  C3, as the code has it. For a pattern that is empty or holds only \<open>?\<close>, when the
  tokenizer is there, \<open>find_matches\<close> keeps exactly the words that match the pattern's
  regular expression and whose length is within 3 of
  \<open>max(2, min(15, floor(token_count * 1.5)))\<close>: the code truncates with \<open>int\<close>, it does
  not round.
\<close>

theorem find_matches_estimated_length:
  assumes "pattern = [] \<or> list_all (\<lambda>c. c = CHR ''?'') pattern"
    and "tokenizer e = Some t"
  shows "find_matches e wl pattern clue =
    filter (\<lambda>w. re_match (pattern_to_regex pattern) w
                \<and> \<bar>int (length w) - max 2 (min 15 \<lfloor>real (length (t (lower clue))) * 3 / 2\<rfloor>)\<bar> \<le> 3) wl"
proof -
  have "near (est_len n) w = (\<bar>int (length w) - max 2 (min 15 \<lfloor>real n * 3 / 2\<rfloor>)\<bar> \<le> 3)" for n w
    unfolding near_def by (simp only: est_len_floor)
  then show ?thesis
    using find_matches_vague[OF assms, of wl clue] by (simp only: filter_filter)
qed

theorem find_matches_estimated_length_witness:
  "find_matches demo_env (load_word_database (Some demo_lines)) [] ''large grey animal with trunk'' =
    filter (\<lambda>w. re_match (pattern_to_regex []) w
                \<and> \<bar>int (length w)
                     - max 2 (min 15 \<lfloor>real (length (demo_tokenize (lower ''large grey animal with trunk''))) * 3 / 2\<rfloor>)\<bar> \<le> 3)
      (load_word_database (Some demo_lines))"
proof -
  have a: "([]::string) = [] \<or> list_all (\<lambda>c. c = CHR ''?'') []" by simp
  have b: "tokenizer demo_env = Some demo_tokenize" by (simp add: demo_env_def)
  show ?thesis by (rule find_matches_estimated_length[OF a b])
qed

text \<open>
  C3 as stated fails at a clue of five tokens: the code estimates 7 and keeps the
  pattern-matching word \<open>LION\<close> of four letters, which is more than 3 away from the
  rounded estimate 8.
\<close>

theorem find_matches_truncates_counterexample:
  "find_matches demo_env (load_word_database (Some demo_lines)) [] ''large grey animal with trunk''
     = [''LION'', ''ELEPHANT'']
   \<and> re_match (pattern_to_regex []) ''LION''
   \<and> spec_estimated_length (length (demo_tokenize (lower ''large grey animal with trunk''))) = 8
   \<and> \<not> near 8 ''LION''"
proof -
  have a: "find_matches demo_env (load_word_database (Some demo_lines)) [] ''large grey animal with trunk''
     = [''LION'', ''ELEPHANT'']" by code_simp
  have b: "re_match (pattern_to_regex []) ''LION''" by code_simp
  have "length (demo_tokenize (lower ''large grey animal with trunk'')) = 5" by code_simp
  then have c: "spec_estimated_length (length (demo_tokenize (lower ''large grey animal with trunk''))) = 8"
    by (simp only: spec_estimated_length_5)
  have d: "\<not> near 8 ''LION''" by code_simp
  show ?thesis by (intro conjI a b c d)
qed

section \<open>Ranked lists\<close>


lemma collect_total: "(\<And>x. x \<in> set xs \<Longrightarrow> \<exists>y. f x = Inr y) \<Longrightarrow> \<exists>ys. collect f xs = Inr ys"
proof (induction xs)
  case Nil
  then show ?case by simp
next
  case (Cons x xs)
  then obtain y where y: "f x = Inr y" by auto
  from Cons obtain ys where "collect f xs = Inr ys" by auto
  with y show ?case by simp
qed





lemma wordnet_entry_total: "tokenizer e = Some t \<Longrightarrow> \<exists>x. wordnet_entry e cw w = Inr x"
  by (auto simp: wordnet_entry_def word_tokenize_def Let_def split: list.splits)

lemma wordnet_entry2_total: "tokenizer e = Some t \<Longrightarrow> \<exists>x. wordnet_entry2 e cw w = Inr x"
  by (auto simp: wordnet_entry2_def word_tokenize_def Let_def split: list.splits)

lemma ai_entry_total: "tokenizer e = Some t \<Longrightarrow> \<exists>x. ai_entry e sim clue w = Inr x"
  by (auto simp: ai_entry_def word_tokenize_def Let_def split: list.splits prod.splits)



lemma length_sorted_desc: "length (sorted_desc key xs) = length xs"
  by (simp add: sorted_desc_def)







lemma wordnet_ranking_total: "tokenizer e = Some t \<Longrightarrow> \<exists>r. wordnet_ranking e clue ms = Inr r"
proof -
  assume t: "tokenizer e = Some t"
  have "\<exists>ys. collect (wordnet_entry e cw) ms = Inr ys" for cw
    using wordnet_entry_total[OF t] by (intro collect_total) blast
  then show ?thesis using t
    by (auto simp: wordnet_ranking_def word_tokenize_def split: sum.splits) (metis sum.distinct(1))
qed

lemma wordnet_ranking2_total: "tokenizer e = Some t \<Longrightarrow> \<exists>r. wordnet_ranking2 e clue ms = Inr r"
proof -
  assume t: "tokenizer e = Some t"
  have "\<exists>ys. collect (wordnet_entry2 e cw) ms = Inr ys" for cw
    using wordnet_entry2_total[OF t] by (intro collect_total) blast
  then show ?thesis using t
    by (auto simp: wordnet_ranking2_def word_tokenize_def split: sum.splits) (metis sum.distinct(1))
qed

lemma ai_ranking_total: "tokenizer e = Some t \<Longrightarrow> \<exists>r. ai_ranking e s sim clue ms = Inr r"
proof -
  assume t: "tokenizer e = Some t"
  have "\<exists>ys. collect (ai_entry e sim clue) xs = Inr ys" for xs
    using ai_entry_total[OF t] by (intro collect_total) blast
  then show ?thesis
    by (auto simp: ai_ranking_def split: sum.splits) (metis sum.distinct(1))
qed





section \<open>What \<open>solve\<close> returns\<close>

lemma find_matches_match:
  assumes "tokenizer e = Some t" and "w \<in> set (find_matches e wl pattern clue)"
  shows "re_match (pattern_to_regex pattern) w"
proof -
  have "\<not> (\<exists>err. find_matches_body e wl pattern clue = Inl err)"
    using assms(1) by (simp add: body_fails_iff)
  then obtain ms where ms: "find_matches_body e wl pattern clue = Inr ms"
    by (cases "find_matches_body e wl pattern clue") auto
  then have "w \<in> set ms" using assms(2) by (simp add: find_matches_def)
  then show ?thesis using body_subset[OF ms] by auto
qed

lemma find_matches_strict_match:
  assumes "pattern \<noteq> []" and "\<not> list_all (\<lambda>c. c = CHR ''?'') pattern"
    and "w \<in> set (find_matches e wl pattern clue)"
  shows "re_match (pattern_to_regex pattern) w"
  using assms by (simp add: find_matches_strict)

lemma snd_solve:
  "snd (solve e s clue pattern) =
     (case rank_by_clue e s clue (find_matches e (word_list s) pattern clue) pattern of
        Inl err \<Rightarrow> Inl err
      | Inr ranked \<Rightarrow> Inr ((clue, upper pattern), ranked))"
  by (simp add: solve_def Let_def split: sum.splits)

lemma snd_solve2:
  "snd (solve2 e s clue pattern) =
     (case rank_by_clue2 e s clue (find_matches e (word_list s) pattern clue) pattern of
        Inl err \<Rightarrow> Inl err
      | Inr ranked \<Rightarrow> Inr ((clue, upper pattern), ranked))"
  by (simp add: solve2_def Let_def split: sum.splits)

lemma wordnet_ranking2_no_tokenizer:
  "tokenizer e = None \<Longrightarrow> wordnet_ranking2 e clue ms = Inl LookupError"
  by (simp add: wordnet_ranking2_def word_tokenize_def)

lemma rank_by_clue_total:
  assumes "tokenizer e = Some t"
  shows "\<exists>r. rank_by_clue e s clue ms pattern = Inr r"
proof -
  have "\<exists>r. (case similarity_model s of
               Some sim \<Rightarrow> ai_ranking e s sim clue ms
             | None \<Rightarrow> wordnet_ranking e clue ms) = Inr r"
    using wordnet_ranking_total[OF assms] ai_ranking_total[OF assms]
    by (cases "similarity_model s") auto
  then show ?thesis
    by (auto simp: rank_by_clue_def Let_def split: option.splits)
qed

lemma rank_by_clue2_total:
  assumes "tokenizer e = Some t"
  shows "\<exists>r. rank_by_clue2 e s clue ms pattern = Inr r"
proof (cases "clue = []")
  case True
  then show ?thesis by (simp add: rank_by_clue2_def)
next
  case False
  let ?om = "case map_of (feedback_db s) (feedback_key clue pattern) of
               None \<Rightarrow> ms
             | Some correct \<Rightarrow> filter (\<lambda>m. m \<noteq> correct) ms"
  obtain other where o: "wordnet_ranking2 e clue ?om = Inr other"
    using wordnet_ranking2_total[OF assms] by blast
  obtain every where ev: "wordnet_ranking2 e clue ms = Inr every"
    using wordnet_ranking2_total[OF assms] by blast
  show ?thesis using False o ev by (simp add: rank_by_clue2_def Let_def)
qed




lemma take2_empty: "take 2 xs = [] \<Longrightarrow> take 3 xs = []"
  by (cases xs) auto




text \<open>
  C5, as the code has it. For a clue that is not empty, when the feedback store holds
  for the key a word that does not match the regular expression of the pattern: in the
  first definition, when the tokenizer is there or the pattern holds a character other
  than \<open>?\<close>, \<open>solve\<close> returns what the active ranking (\<open>_ai_ranking\<close> or
  \<open>_wordnet_ranking\<close>) gives for the filtered candidates; in the second definition
  \<open>solve\<close> returns the first two of \<open>_wordnet_ranking\<close> of the filtered candidates, as
  it does with no feedback. With the tokenizer there both calls return.
\<close>

theorem inapplicable_feedback_skipped:
  assumes "clue \<noteq> []"
    and "map_of (feedback_db s) (feedback_key clue pattern) = Some w"
    and "\<not> re_match (pattern_to_regex pattern) w"
  shows "(tokenizer e \<noteq> None \<or> (pattern \<noteq> [] \<and> \<not> list_all (\<lambda>c. c = CHR ''?'') pattern) \<longrightarrow>
      snd (solve e s clue pattern) =
        (case (case similarity_model s of
                 Some sim \<Rightarrow> ai_ranking e s sim clue (find_matches e (word_list s) pattern clue)
               | None \<Rightarrow> wordnet_ranking e clue (find_matches e (word_list s) pattern clue)) of
           Inl err \<Rightarrow> Inl err
         | Inr ranked \<Rightarrow> Inr ((clue, upper pattern), ranked)))
    \<and> snd (solve2 e s clue pattern) =
        (case wordnet_ranking2 e clue (find_matches e (word_list s) pattern clue) of
           Inl err \<Rightarrow> Inl err
         | Inr every \<Rightarrow> Inr ((clue, upper pattern), take 2 every))
    \<and> (tokenizer e \<noteq> None \<longrightarrow>
        (\<exists>res. snd (solve e s clue pattern) = Inr res)
        \<and> (\<exists>res. snd (solve2 e s clue pattern) = Inr res))"
proof (intro conjI impI)
  let ?ms = "find_matches e (word_list s) pattern clue"
  {
    assume h: "tokenizer e \<noteq> None \<or> (pattern \<noteq> [] \<and> \<not> list_all (\<lambda>c. c = CHR ''?'') pattern)"
    have "w \<notin> set ?ms"
    proof
      assume "w \<in> set ?ms"
      then have "re_match (pattern_to_regex pattern) w"
        using h find_matches_match find_matches_strict_match by blast
      then show False using assms(3) by simp
    qed
    then show "snd (solve e s clue pattern) =
        (case (case similarity_model s of
                 Some sim \<Rightarrow> ai_ranking e s sim clue ?ms
               | None \<Rightarrow> wordnet_ranking e clue ?ms) of
           Inl err \<Rightarrow> Inl err
         | Inr ranked \<Rightarrow> Inr ((clue, upper pattern), ranked))"
      using assms(1,2) by (simp add: snd_solve rank_by_clue_def Let_def)
  }
  show "snd (solve2 e s clue pattern) =
        (case wordnet_ranking2 e clue ?ms of
           Inl err \<Rightarrow> Inl err
         | Inr every \<Rightarrow> Inr ((clue, upper pattern), take 2 every))"
  proof (cases "tokenizer e")
    case None
    then show ?thesis
      using assms(1,2) wordnet_ranking2_no_tokenizer[OF None]
      by (simp add: snd_solve2 rank_by_clue2_def Let_def)
  next
    case (Some t)
    have "w \<notin> set ?ms" using find_matches_match[OF Some] assms(3) by blast
    then have f: "filter (\<lambda>m. m \<noteq> w) ?ms = ?ms" by (auto simp: filter_id_conv)
    obtain every where ev: "wordnet_ranking2 e clue ?ms = Inr every"
      using wordnet_ranking2_total[OF Some] by blast
    have "rank_by_clue2 e s clue ?ms pattern = Inr (take 2 every)"
      using assms ev f take2_empty[of every] by (simp add: rank_by_clue2_def Let_def)
    then show ?thesis using ev by (simp add: snd_solve2)
  qed
  {
    assume "tokenizer e \<noteq> None"
    then obtain t where t: "tokenizer e = Some t" by auto
    show "\<exists>res. snd (solve e s clue pattern) = Inr res"
      using rank_by_clue_total[OF t, of s clue ?ms pattern] by (auto simp: snd_solve)
    show "\<exists>res. snd (solve2 e s clue pattern) = Inr res"
      using rank_by_clue2_total[OF t, of s clue ?ms pattern] by (auto simp: snd_solve2)
  }
qed

theorem inapplicable_feedback_skipped_witness:
  "snd (solve2 demo_env solver_dog ''feline pet'' ''C?T'') =
        (case wordnet_ranking2 demo_env ''feline pet''
                (find_matches demo_env (word_list solver_dog) ''C?T'' ''feline pet'') of
           Inl err \<Rightarrow> Inl err
         | Inr every \<Rightarrow> Inr ((''feline pet'', upper ''C?T''), take 2 every))
   \<and> snd (solve2 demo_env solver_dog ''feline pet'' ''C?T'') =
       Inr ((''feline pet'', ''C?T''),
            [(''CAT'', 4 / 5, ''feline mammal usually having thick soft fur''),
             (''COT'', 0, ''a small bed that folds up for storage or transport'')])
   \<and> snd (solve demo_env solver_dog ''feline pet'' ''C?T'') =
       Inr ((''feline pet'', ''C?T''),
            [(''CAT'', 4 / 5, ''feline mammal usually having thick soft fur''),
             (''COT'', 0, ''a small bed that folds up for storage or transport''),
             (''CUT'', 0, ''No definition'')])"
proof -
  have a: "''feline pet'' \<noteq> []" by simp
  have b: "map_of (feedback_db solver_dog) (feedback_key ''feline pet'' ''C?T'') = Some ''DOG''"
    by code_simp
  have c: "\<not> re_match (pattern_to_regex ''C?T'') ''DOG''" by code_simp
  have r: "snd (solve2 demo_env solver_dog ''feline pet'' ''C?T'') =
        (case wordnet_ranking2 demo_env ''feline pet''
                (find_matches demo_env (word_list solver_dog) ''C?T'' ''feline pet'') of
           Inl err \<Rightarrow> Inl err
         | Inr every \<Rightarrow> Inr ((''feline pet'', upper ''C?T''), take 2 every))"
    using inapplicable_feedback_skipped[OF a b c, of demo_env] by blast
  have d: "snd (solve2 demo_env solver_dog ''feline pet'' ''C?T'') =
       Inr ((''feline pet'', ''C?T''),
            [(''CAT'', 4 / 5, ''feline mammal usually having thick soft fur''),
             (''COT'', 0, ''a small bed that folds up for storage or transport'')])" by code_simp
  have e: "snd (solve demo_env solver_dog ''feline pet'' ''C?T'') =
       Inr ((''feline pet'', ''C?T''),
            [(''CAT'', 4 / 5, ''feline mammal usually having thick soft fur''),
             (''COT'', 0, ''a small bed that folds up for storage or transport''),
             (''CUT'', 0, ''No definition'')])" by code_simp
  show ?thesis by (intro conjI r d e)
qed

text \<open>
  C5 as stated fails in the first definition when \<open>find_matches\<close> falls back: with no
  tokenizer and the pattern \<open>??\<close>, the stored \<open>CAT\<close>, which does not match the pattern,
  is among the first 100 words and comes back with score 1.
\<close>

theorem fallback_fast_path_counterexample:
  "map_of (feedback_db solver_wild) (feedback_key ''feline pet'' ''??'') = Some ''CAT''
   \<and> \<not> re_match (pattern_to_regex ''??'') ''CAT''
   \<and> snd (solve no_punkt_env solver_wild ''feline pet'' ''??'') =
       Inr ((''feline pet'', ''??''), [(''CAT'', 1, ''feline mammal usually having thick soft fur'')])"
proof -
  have a: "map_of (feedback_db solver_wild) (feedback_key ''feline pet'' ''??'') = Some ''CAT''"
    by code_simp
  have b: "\<not> re_match (pattern_to_regex ''??'') ''CAT''" by code_simp
  have c: "snd (solve no_punkt_env solver_wild ''feline pet'' ''??'') =
       Inr ((''feline pet'', ''??''), [(''CAT'', 1, ''feline mammal usually having thick soft fur'')])"
    by code_simp
  show ?thesis by (intro conjI a b c)
qed

section \<open>The feedback store under the operations\<close>

lemma feedback_db_solve: "feedback_db (fst (solve e s clue pattern)) = feedback_db s"
  by (simp add: solve_def Let_def split: sum.splits)

lemma feedback_db_solve2: "feedback_db (fst (solve2 e s clue pattern)) = feedback_db s"
  by (simp add: solve2_def Let_def split: sum.splits)

lemma feedback_db_record_feedback:
  "feedback_db (solver (record_feedback a clue pattern word)) =
     store (feedback_db (solver a)) clue pattern word"
  by (simp add: record_feedback_def save_feedback_def Let_def)

lemma feedback_db_gui_solve:
  "feedback_db (solver (fst (gui_solve e a clue pattern))) = feedback_db (solver a)"
proof -
  let ?a = "a\<lparr>solver := (solver a)\<lparr>excluded_words := []\<rparr>\<rparr>"
  have "feedback_db (fst (solve e (solver ?a) (strip clue) (strip pattern))) = feedback_db (solver a)"
    by (simp add: feedback_db_solve)
  then show ?thesis
    by (cases "solve e (solver ?a) (strip clue) (strip pattern)")
       (auto simp: gui_solve_def Let_def split: sum.splits)
qed

lemma feedback_db_gui_solve2:
  "feedback_db (solver (fst (gui_solve2 e a clue pattern))) = feedback_db (solver a)"
proof -
  have "feedback_db (fst (solve2 e (solver a) (strip clue) (upper (strip pattern)))) = feedback_db (solver a)"
    by (simp add: feedback_db_solve2)
  then show ?thesis
    by (cases "solve2 e (solver a) (strip clue) (upper (strip pattern))")
       (auto simp: gui_solve2_def Let_def split: sum.splits)
qed

lemma feedback_db_process_feedback:
  "feedback_db (solver (fst (process_feedback a is_correct clue pattern))) = feedback_db (solver a)
   \<or> (\<exists>word. feedback_db (solver (fst (process_feedback a is_correct clue pattern))) =
         store (feedback_db (solver a)) clue pattern word)"
  by (auto simp: process_feedback_def feedback_db_record_feedback split: sum.splits)

lemma feedback_db_submit_correction:
  "feedback_db (solver (fst (submit_correction e a clue pattern entry))) = feedback_db (solver a)
   \<or> feedback_db (solver (fst (submit_correction e a clue pattern entry))) =
       store (feedback_db (solver a)) clue pattern (upper (strip entry))"
proof (cases "upper (strip entry) = []")
  case True
  then show ?thesis by (simp add: submit_correction_def Let_def)
next
  case False
  let ?b = "record_feedback a clue pattern (upper (strip entry))"
  have "fst (submit_correction e a clue pattern entry) = fst (gui_solve e ?b clue pattern)"
    using False by (simp add: submit_correction_def Let_def split: prod.splits)
  then show ?thesis by (simp add: feedback_db_gui_solve feedback_db_record_feedback)
qed

lemma feedback_db_gui_save_feedback2:
  "feedback_db (solver (fst (gui_save_feedback2 a selected clue pattern))) = feedback_db (solver a)
   \<or> (\<exists>word. feedback_db (solver (fst (gui_save_feedback2 a selected clue pattern))) =
         store (feedback_db (solver a)) (strip clue) (upper (strip pattern)) word)"
  by (auto simp: gui_save_feedback2_def Let_def feedback_db_record_feedback split: option.splits)

lemma feedback_db_enter_correct_word:
  "feedback_db (solver (fst (enter_correct_word e a clue pattern answer))) = feedback_db (solver a)
   \<or> (\<exists>word. feedback_db (solver (fst (enter_correct_word e a clue pattern answer))) =
         store (feedback_db (solver a)) (strip clue) (upper (strip pattern)) word)"
  by (auto simp: enter_correct_word_def Let_def case_prod_unfold feedback_db_gui_solve2
        feedback_db_record_feedback split: option.splits)

lemma exec_feedback_db:
  "feedback_db (solver (exec e op a)) = feedback_db (solver a)
   \<or> (\<exists>clue pattern word. feedback_db (solver (exec e op a)) =
         store (feedback_db (solver a)) clue pattern word)"
proof (cases op)
  case (Solve clue pattern)
  then show ?thesis by (simp add: feedback_db_solve)
next
  case (Solve2 clue pattern)
  then show ?thesis by (simp add: feedback_db_solve2)
next
  case (Save_feedback clue pattern word)
  then show ?thesis using feedback_db_record_feedback[of a clue pattern word] by auto
next
  case (Gui_solve clue pattern)
  then show ?thesis by (simp add: feedback_db_gui_solve)
next
  case (Process_feedback is_correct clue pattern)
  then show ?thesis using feedback_db_process_feedback[of a is_correct clue pattern] by auto
next
  case (Submit_correction clue pattern correction)
  then show ?thesis using feedback_db_submit_correction[of e a clue pattern correction] by auto
next
  case (Gui_solve2 clue pattern)
  then show ?thesis by (simp add: feedback_db_gui_solve2)
next
  case (Gui_save_feedback2 selected clue pattern)
  then show ?thesis using feedback_db_gui_save_feedback2[of a selected clue pattern] by auto
next
  case (Enter_correct_word clue pattern answer)
  then show ?thesis using feedback_db_enter_correct_word[of e a clue pattern answer] by auto
qed

lemma map_of_store:
  "map_of (store db clue pattern word) = (map_of db)(feedback_key clue pattern \<mapsto> upper word)"
  by (simp add: store_def Let_def update_conv')

lemma keys_store: "fst ` set (store db clue pattern word) = insert (feedback_key clue pattern) (fst ` set db)"
  by (simp add: store_def Let_def dom_update)

text \<open>
  C8. An operation of the solver or of a front end leaves the feedback dict as it is,
  or it is one assignment \<open>feedback_db[key] = word.upper()\<close>: the dict after it maps the
  key to the uppercased word and every other key to what it held. The keys of the dict
  before the operation are keys after it.
\<close>

theorem feedback_store_never_shrinks:
  "(feedback_db (solver (exec e op a)) = feedback_db (solver a)
    \<or> (\<exists>clue pattern word.
          feedback_db (solver (exec e op a)) = store (feedback_db (solver a)) clue pattern word
          \<and> map_of (feedback_db (solver (exec e op a))) =
              (map_of (feedback_db (solver a)))(feedback_key clue pattern \<mapsto> upper word)))
   \<and> fst ` set (feedback_db (solver a)) \<subseteq> fst ` set (feedback_db (solver (exec e op a)))"
proof -
  have d: "feedback_db (solver (exec e op a)) = feedback_db (solver a)
    \<or> (\<exists>clue pattern word.
          feedback_db (solver (exec e op a)) = store (feedback_db (solver a)) clue pattern word
          \<and> map_of (feedback_db (solver (exec e op a))) =
              (map_of (feedback_db (solver a)))(feedback_key clue pattern \<mapsto> upper word))"
    using exec_feedback_db[of e op a] by (metis map_of_store)
  have k: "fst ` set (feedback_db (solver a)) \<subseteq> fst ` set (feedback_db (solver (exec e op a)))"
    using exec_feedback_db[of e op a] keys_store by (metis order_refl subset_insertI)
  show ?thesis using d k by (rule conjI)
qed

section \<open>Corrections that do not fit the pattern\<close>

text \<open>
  C6. \<open>DOG\<close> does not match the pattern \<open>C?T\<close>. \<open>_submit_correction\<close> of the first front
  end records it all the same, writes it to \<open>feedback.json\<close> and shows
  \<open>Correction saved!\<close>; \<open>enter_correct_word\<close> of the second front end refuses it with
  \<open>Invalid Word\<close> and leaves the application as it was.
\<close>

theorem submit_correction_records_mismatch:
  "\<not> re_match (pattern_to_regex ''C?T'') ''DOG''
   \<and> feedback_db (solver (fst (submit_correction demo_env demo_app ''Feline pet'' ''C?T'' ''DOG''))) =
       [(''('' @ [CHR 0x27] @ ''Feline pet'' @ [CHR 0x27] @ '', '' @ [CHR 0x27] @ ''C?T'' @ [CHR 0x27] @ '')'',
         ''DOG'')]
   \<and> feedback_json (fst (submit_correction demo_env demo_app ''Feline pet'' ''C?T'' ''DOG'')) =
       Some (json_dump [(feedback_key ''Feline pet'' ''C?T'', ''DOG'')])
   \<and> snd (submit_correction demo_env demo_app ''Feline pet'' ''C?T'' ''DOG'') =
       [Showinfo ''Success'' ''Correction saved!'']
   \<and> enter_correct_word demo_env demo_app ''Feline pet'' ''C?T'' (Some ''DOG'') =
       (demo_app,
        [Showerror ''Invalid Word''
           (''The word '' @ [CHR 0x27] @ ''DOG'' @ [CHR 0x27] @ '' does not match the pattern ''
              @ [CHR 0x27] @ ''C?T'' @ [CHR 0x27] @ ''.'')])"
proof -
  have a: "\<not> re_match (pattern_to_regex ''C?T'') ''DOG''" by code_simp
  have b: "feedback_db (solver (fst (submit_correction demo_env demo_app ''Feline pet'' ''C?T'' ''DOG''))) =
       [(''('' @ [CHR 0x27] @ ''Feline pet'' @ [CHR 0x27] @ '', '' @ [CHR 0x27] @ ''C?T'' @ [CHR 0x27] @ '')'',
         ''DOG'')]" by code_simp
  have c: "feedback_json (fst (submit_correction demo_env demo_app ''Feline pet'' ''C?T'' ''DOG'')) =
       Some (json_dump [(feedback_key ''Feline pet'' ''C?T'', ''DOG'')])" by code_simp
  have d: "snd (submit_correction demo_env demo_app ''Feline pet'' ''C?T'' ''DOG'') =
       [Showinfo ''Success'' ''Correction saved!'']" by code_simp
  have e: "enter_correct_word demo_env demo_app ''Feline pet'' ''C?T'' (Some ''DOG'') =
       (demo_app,
        [Showerror ''Invalid Word''
           (''The word '' @ [CHR 0x27] @ ''DOG'' @ [CHR 0x27] @ '' does not match the pattern ''
              @ [CHR 0x27] @ ''C?T'' @ [CHR 0x27] @ ''.'')])"
  proof -
    have p: "strip ''Feline pet'' = ''Feline pet''" by code_simp
    have q: "upper (strip ''C?T'') = ''C?T''" by code_simp
    have r: "upper (strip ''DOG'') = ''DOG''" by code_simp
    show ?thesis by (simp add: enter_correct_word_def Let_def p q r a quoted_def)
  qed
  show ?thesis by (intro conjI a b c d e)
qed

end
